theory Spec2Isabelle
  imports Complex_Main
begin

section \<open>Redshift: the temperature model and the transition engine of redshift.c\<close>

text \<open>
  The C values of type \<^verbatim>\<open>double\<close> and \<^verbatim>\<open>float\<close> are modelled as real numbers:
  the rounding of the machine arithmetic is left out, every other step of the source is
  kept (in particular the conversion of a \<^verbatim>\<open>double\<close> to an \<^verbatim>\<open>int\<close>, which
  truncates). The C flags that only ever hold 0 or 1 are booleans. Messages written to
  the terminal are left out; the calls to the gamma backend are recorded as a trace.
\<close>

subsection \<open>Constants\<close>

text \<open>
  Modelled from the spec: \<^verbatim>\<open>SOLAR_CIVIL_TWILIGHT_ELEV\<close> comes from \<^verbatim>\<open>solar.h\<close>,
  which is not among the sources; the specification gives the civil-twilight elevation
  as -6 degrees.
\<close>

definition SOLAR_CIVIL_TWILIGHT_ELEV :: real where
  "SOLAR_CIVIL_TWILIGHT_ELEV = - 6"

definition TRANSITION_LOW :: real where
  "TRANSITION_LOW = SOLAR_CIVIL_TWILIGHT_ELEV"

definition TRANSITION_HIGH :: real where
  "TRANSITION_HIGH = 3"

definition DEFAULT_DAY_TEMP :: int where
  "DEFAULT_DAY_TEMP = 5500"

definition DEFAULT_NIGHT_TEMP :: int where
  "DEFAULT_NIGHT_TEMP = 3700"

definition DEFAULT_GAMMA :: real where
  "DEFAULT_GAMMA = 1"

subsection \<open>Conversion of a floating-point value to \<^verbatim>\<open>int\<close>\<close>

text \<open>C converts a floating-point value to an integer by discarding the fraction.\<close>

definition c_trunc :: "real \<Rightarrow> int" where
  "c_trunc x = (if 0 \<le> x then \<lfloor>x\<rfloor> else \<lceil>x\<rceil>)"

subsection \<open>\<^verbatim>\<open>calculate_temp\<close>\<close>

text \<open>
  The local variable \<^verbatim>\<open>a\<close> of the transition branch:
  \<^verbatim>\<open>float a = (TRANSITION_LOW - elevation) / (TRANSITION_LOW - TRANSITION_HIGH);\<close>
\<close>

definition transition_a :: "real \<Rightarrow> real" where
  "transition_a elevation =
     (TRANSITION_LOW - elevation) / (TRANSITION_LOW - TRANSITION_HIGH)"



definition calculate_temp :: "real \<Rightarrow> int \<Rightarrow> int \<Rightarrow> int" where
  "calculate_temp elevation temp_day temp_night =
     (if elevation < TRANSITION_LOW then temp_night
      else if elevation < TRANSITION_HIGH then
        (let a = transition_a elevation
         in c_trunc ((1 - a) * real_of_int temp_night + a * real_of_int temp_day))
      else temp_day)"

subsection \<open>Options and the gamma backend\<close>

text \<open>The fields of \<^verbatim>\<open>rs_opts\<close> that the functions below read or write.\<close>

record rs_opts =
  lat :: real
  lon :: real
  temp_day :: int
  temp_night :: int
  gamma :: "real list"
  transition :: bool
  one_shot :: bool
  verbose :: bool

text \<open>
  A call that reaches the gamma backend through \<^verbatim>\<open>gamma_state_set_temperature\<close>,
  \<^verbatim>\<open>gamma_state_restore\<close> or \<^verbatim>\<open>gamma_state_free\<close>. The gamma argument of
  \<^verbatim>\<open>set_temperature\<close> is always \<^verbatim>\<open>opts->gamma\<close> and is not recorded.
\<close>

datatype gamma_call = Set_temperature int | Restore | Free

text \<open>How a function of the program ends: it returns a value, or the process exits.\<close>

datatype ending = Returned int | EXIT_FAILURE

subsection \<open>What one iteration reads from outside\<close>

text \<open>
  One iteration of the loop reads the two signal flags, the clock and the result of the
  backend call. \<^verbatim>\<open>systemtime_get_time\<close> returns \<open>time_r\<close> and stores \<open>time_now\<close>;
  \<open>set_r\<close> is what \<^verbatim>\<open>gamma_state_set_temperature\<close> returns if it is called.
\<close>

record tick_env =
  sig_disable :: bool
  sig_exiting :: bool
  time_r :: int
  time_now :: real
  set_r :: int

subsection \<open>\<^verbatim>\<open>do_oneshot\<close>\<close>

text \<open>
  \<^verbatim>\<open>solar_elevation\<close> (\<^verbatim>\<open>solar.c\<close>) is not among the sources: it is the parameter
  \<open>solar_elevation\<close> of every function that calls it.
\<close>

definition do_oneshot ::
  "(real \<Rightarrow> real \<Rightarrow> real \<Rightarrow> real) \<Rightarrow> rs_opts \<Rightarrow> tick_env \<Rightarrow> gamma_call list \<times> ending" where
  "do_oneshot solar_elevation opts env =
     (if time_r env < 0 then ([Free], EXIT_FAILURE)
      else
        let now = time_now env;
            elevation = solar_elevation now (lat opts) (lon opts);
            temp = calculate_temp elevation (temp_day opts) (temp_night opts)
        in if set_r env < 0 then ([Set_temperature temp, Free], EXIT_FAILURE)
           else ([Set_temperature temp], Returned 0))"

subsection \<open>\<^verbatim>\<open>do_continous\<close>: the state of the loop\<close>

record loop_state =
  short_trans_end :: real
  short_trans :: bool
  short_trans_done :: bool
  short_trans_create :: bool
  short_trans_begin :: bool
  short_trans_len :: int
  adjustment_alpha :: real
  done_flag :: bool
  disabled :: bool

text \<open>
  The values of the local variables when the loop is entered (\<open>done_flag\<close> is the
  variable \<^verbatim>\<open>done\<close>).
\<close>

definition initial_state :: loop_state where
  "initial_state =
     \<lparr> short_trans_end = 0, short_trans = False, short_trans_done = False,
       short_trans_create = True, short_trans_begin = True, short_trans_len = 10,
       adjustment_alpha = 0, done_flag = False, disabled = False \<rparr>"

subsection \<open>The blocks of the loop body\<close>

text \<open>Check to see if disable signal was caught.\<close>

definition check_disable :: "bool \<Rightarrow> loop_state \<Rightarrow> loop_state" where
  "check_disable disable s =
     (if disable then
        (let s1 = s\<lparr> short_trans_create := True, short_trans_len := 2 \<rparr>
         in if \<not> disabled s1 then
              s1\<lparr> short_trans_begin := False, adjustment_alpha := 1, disabled := True \<rparr>
            else
              s1\<lparr> short_trans_begin := True, adjustment_alpha := 0, disabled := False \<rparr>)
      else s)"

text \<open>Check to see if exit signal was caught.\<close>

definition check_exiting :: "bool \<Rightarrow> loop_state \<Rightarrow> loop_state" where
  "check_exiting exiting s =
     (if exiting then
        (if done_flag s then s\<lparr> short_trans := False \<rparr>
         else
           (let s1 = (if \<not> disabled s then
                        s\<lparr> short_trans_create := True, short_trans_begin := False,
                           short_trans_len := 2, adjustment_alpha := 1 \<rparr>
                      else s)
            in s1\<lparr> done_flag := True \<rparr>))
      else s)"

text \<open>Set up a new transition.\<close>

definition setup_transition :: "rs_opts \<Rightarrow> real \<Rightarrow> loop_state \<Rightarrow> loop_state" where
  "setup_transition opts now s =
     (if short_trans_create s then
        (if transition opts then
           s\<lparr> short_trans_end := now + real_of_int (short_trans_len s),
              short_trans := True, short_trans_create := False \<rparr>
         else s\<lparr> short_trans_done := True \<rparr>)
      else s)"

text \<open>The macros \<^verbatim>\<open>MIN\<close> and \<^verbatim>\<open>MAX\<close>.\<close>

definition MIN_macro :: "real \<Rightarrow> real \<Rightarrow> real" where
  "MIN_macro x y = (if x < y then x else y)"

definition MAX_macro :: "real \<Rightarrow> real \<Rightarrow> real" where
  "MAX_macro x y = (if x > y then x else y)"

text \<open>
  Ongoing short transition: \<open>start\<close> is the current time, \<open>end_time\<close> the variable
  \<^verbatim>\<open>end\<close>.
\<close>

definition ongoing_transition :: "real \<Rightarrow> loop_state \<Rightarrow> loop_state" where
  "ongoing_transition now s =
     (if short_trans s then
        (let start = now;
             end_time = short_trans_end s;
             s1 = (if start > end_time then s\<lparr> short_trans := False, short_trans_done := True \<rparr>
                   else s);
             alpha = (end_time - start) / real_of_int (short_trans_len s1);
             alpha1 = (if \<not> short_trans_begin s1 then 1 - alpha else alpha)
         in s1\<lparr> adjustment_alpha := MAX_macro 0 (MIN_macro alpha1 1) \<rparr>)
      else s)"

text \<open>Handle end of transition.\<close>

definition end_of_transition :: "loop_state \<Rightarrow> gamma_call list \<times> loop_state" where
  "end_of_transition s =
     (if short_trans_done s then
        ((if disabled s then [Restore] else []), s\<lparr> short_trans_done := False \<rparr>)
      else ([], s))"

text \<open>Interpolate between 6500K and calculated temperature.\<close>

definition interpolate_temp :: "real \<Rightarrow> int \<Rightarrow> int" where
  "interpolate_temp alpha temp = c_trunc (alpha * 6500 + (1 - alpha) * real_of_int temp)"

subsection \<open>One iteration of the loop\<close>

text \<open>
  An iteration goes on to the next one (after sleeping), leaves the loop through
  \<^verbatim>\<open>break\<close>, or ends the process through \<^verbatim>\<open>exit(EXIT_FAILURE)\<close>. Each result
  carries the values of the local variables at that point.
\<close>

datatype tick_result = Continue loop_state | Break loop_state | Fatal loop_state

fun state_of :: "tick_result \<Rightarrow> loop_state" where
  "state_of (Continue s) = s"
| "state_of (Break s) = s"
| "state_of (Fatal s) = s"

definition tick ::
  "(real \<Rightarrow> real \<Rightarrow> real \<Rightarrow> real) \<Rightarrow> rs_opts \<Rightarrow> loop_state \<Rightarrow> tick_env
     \<Rightarrow> gamma_call list \<times> tick_result" where
  "tick solar_elevation opts s env =
     (let s1 = check_disable (sig_disable env) s;
          s2 = check_exiting (sig_exiting env) s1
      in if time_r env < 0 then ([Free], Fatal s2)
         else
           let now = time_now env;
               s3 = setup_transition opts now s2;
               elevation = solar_elevation now (lat opts) (lon opts);
               temp = calculate_temp elevation (temp_day opts) (temp_night opts);
               s4 = ongoing_transition now s3;
               (calls, s5) = end_of_transition s4;
               temp1 = interpolate_temp (adjustment_alpha s5) temp
           in if done_flag s5 \<and> \<not> short_trans s5 then (calls, Break s5)
              else if \<not> disabled s5 \<or> short_trans s5 then
                (if set_r env < 0 then (calls @ [Set_temperature temp1, Free], Fatal s5)
                 else (calls @ [Set_temperature temp1], Continue s5))
              else (calls, Continue s5))"

subsection \<open>The loop and \<^verbatim>\<open>do_continous\<close>\<close>

text \<open>
  The loop runs until it breaks or the process exits; what it reads from outside is a
  list with one entry for each iteration. When the list ends before the loop does, the
  result is \<open>Continue\<close>: the loop is still running.
\<close>

fun run_loop ::
  "(real \<Rightarrow> real \<Rightarrow> real \<Rightarrow> real) \<Rightarrow> rs_opts \<Rightarrow> loop_state \<Rightarrow> tick_env list
     \<Rightarrow> gamma_call list \<times> tick_result" where
  "run_loop solar_elevation opts s [] = ([], Continue s)"
| "run_loop solar_elevation opts s (env # envs) =
     (case tick solar_elevation opts s env of
        (calls, Continue s') \<Rightarrow>
          (case run_loop solar_elevation opts s' envs of
             (calls', r) \<Rightarrow> (calls @ calls', r))
      | (calls, r) \<Rightarrow> (calls, r))"

text \<open>
  The code after the loop restores the saved gamma ramps and returns 0. The result is
  \<open>None\<close> while the loop is still running.
\<close>

definition after_loop ::
  "gamma_call list \<times> tick_result \<Rightarrow> gamma_call list \<times> ending option" where
  "after_loop cr =
     (case cr of
        (calls, Continue s) \<Rightarrow> (calls, None)
      | (calls, Break s) \<Rightarrow> (calls @ [Restore], Some (Returned 0))
      | (calls, Fatal s) \<Rightarrow> (calls, Some EXIT_FAILURE))"

definition do_continous ::
  "(real \<Rightarrow> real \<Rightarrow> real \<Rightarrow> real) \<Rightarrow> rs_opts \<Rightarrow> tick_env list
     \<Rightarrow> gamma_call list \<times> ending option" where
  "do_continous solar_elevation opts envs =
     after_loop (run_loop solar_elevation opts initial_state envs)"

subsection \<open>The gamma argument of \<^verbatim>\<open>parse_options\<close>\<close>

text \<open>
  \<^verbatim>\<open>strchr\<close> gives the position of the first occurrence of a character, or nothing
  (the null pointer).
\<close>

fun strchr :: "string \<Rightarrow> char \<Rightarrow> nat option" where
  "strchr [] c = None"
| "strchr (x # xs) c = (if x = c then Some 0 else map_option Suc (strchr xs c))"

datatype parse_error = Malformed_gamma_argument

text \<open>
  The case \<^verbatim>\<open>'g'\<close> of \<^verbatim>\<open>parse_options\<close>. Writing \<^verbatim>\<open>'\0'\<close> over a colon cuts the
  argument there: \<open>take i optarg\<close> is what \<^verbatim>\<open>optarg\<close> then holds and
  \<open>drop (Suc i) optarg\<close> is what \<^verbatim>\<open>s\<close> points to. \<^verbatim>\<open>atof\<close> is the function of the
  C library, a parameter here. A malformed argument ends the process.
\<close>

definition parse_options_gamma ::
  "(string \<Rightarrow> real) \<Rightarrow> rs_opts \<Rightarrow> string \<Rightarrow> parse_error + rs_opts" where
  "parse_options_gamma atof opts optarg =
     (case strchr optarg CHR '':'' of
        None \<Rightarrow>
          (let g = atof optarg
           in Inr (opts\<lparr> gamma := (gamma opts)[2 := g, 1 := g, 0 := g] \<rparr>))
      | Some i \<Rightarrow>
          (let opts1 = opts\<lparr> gamma := (gamma opts)[0 := atof (take i optarg)] \<rparr>;
               g_s = drop (Suc i) optarg
           in case strchr g_s CHR '':'' of
                None \<Rightarrow> Inl Malformed_gamma_argument
              | Some j \<Rightarrow>
                  (let opts2 = opts1\<lparr> gamma := (gamma opts1)[1 := atof (take j g_s)] \<rparr>
                   in Inr (opts2\<lparr> gamma := (gamma opts2)[2 := atof (drop (Suc j) g_s)] \<rparr>))))"

subsection \<open>The fade fraction in the words of the specification\<close>


subsection \<open>Kinds of iterations and of states\<close>

text \<open>An iteration in which no signal is pending and both the clock and the backend work.\<close>

definition quiet :: "tick_env \<Rightarrow> bool" where
  "quiet env = (\<not> sig_disable env \<and> \<not> sig_exiting env \<and> 0 \<le> time_r env \<and> 0 \<le> set_r env)"

text \<open>An iteration that finds the disable signal, and nothing else out of the ordinary.\<close>

definition disable_event :: "tick_env \<Rightarrow> bool" where
  "disable_event env =
     (sig_disable env \<and> \<not> sig_exiting env \<and> 0 \<le> time_r env \<and> 0 \<le> set_r env)"

text \<open>Between two iterations: no transition is active or asked for, and no stop was seen.\<close>

definition steady :: "loop_state \<Rightarrow> bool" where
  "steady s =
     (\<not> short_trans s \<and> \<not> short_trans_create s \<and> \<not> short_trans_done s \<and> \<not> done_flag s)"

text \<open>
  Between two iterations: a two-second transition that ends at \<open>end_time\<close> is active,
  toward the calculated temperature with the engine enabled (\<open>toward_target\<close>) or
  toward neutral with the engine disabled.
\<close>

definition fading :: "bool \<Rightarrow> real \<Rightarrow> loop_state \<Rightarrow> bool" where
  "fading toward_target end_time s =
     (short_trans s \<and> short_trans_begin s = toward_target \<and> disabled s = (\<not> toward_target) \<and>
      short_trans_len s = 2 \<and> short_trans_end s = end_time \<and>
      \<not> short_trans_create s \<and> \<not> short_trans_done s \<and> \<not> done_flag s)"

text \<open>What holds of the local variables between two iterations of the loop.\<close>

definition inv_tick :: "rs_opts \<Rightarrow> loop_state \<Rightarrow> bool" where
  "inv_tick opts s =
     (\<not> short_trans_done s \<and> (short_trans s \<longrightarrow> transition opts) \<and>
      (short_trans_create s \<and> transition opts \<longrightarrow> \<not> disabled s \<and> \<not> done_flag s))"

definition alpha_ok :: "loop_state \<Rightarrow> bool" where
  "alpha_ok s = (0 \<le> adjustment_alpha s \<and> adjustment_alpha s \<le> 1)"

subsection \<open>Sample inputs\<close>

text \<open>A sun that stands at one elevation, in place of \<^verbatim>\<open>solar_elevation\<close>.\<close>

definition sun_at :: "real \<Rightarrow> real \<Rightarrow> real \<Rightarrow> real \<Rightarrow> real" where
  "sun_at elevation now latitude longitude = elevation"

text \<open>The default values of \<^verbatim>\<open>parse_options\<close>, at the location of Copenhagen.\<close>

definition default_opts :: rs_opts where
  "default_opts =
     \<lparr> lat = 55.7, lon = 12.6, temp_day = DEFAULT_DAY_TEMP, temp_night = DEFAULT_NIGHT_TEMP,
       gamma = [DEFAULT_GAMMA, DEFAULT_GAMMA, DEFAULT_GAMMA], transition = True,
       one_shot = False, verbose = False \<rparr>"

text \<open>An iteration at time \<open>now\<close> with no signal pending and no failure.\<close>

definition env_at :: "real \<Rightarrow> tick_env" where
  "env_at now =
     \<lparr> sig_disable = False, sig_exiting = False, time_r = 0, time_now = now, set_r = 0 \<rparr>"

section \<open>The temperature model\<close>

lemmas transition_bounds =
  TRANSITION_LOW_def TRANSITION_HIGH_def SOLAR_CIVIL_TWILIGHT_ELEV_def

lemma c_trunc_of_int: "c_trunc (real_of_int n) = n"
  by (simp add: c_trunc_def)








text \<open>
  Claim C5, as stated, gives about 3967 K for elevation -3, day 5500 K and night 3700 K.
  The code returns 4300, which is also the value of \<open>2/3 * 3700 + 1/3 * 5500\<close>: both
  are 333 K away from 3967.
\<close>

theorem calculate_temp_minus3_not_3967:
  "calculate_temp (- 3) 5500 3700 - 3967 = 333 \<and>
   (2 / 3) * 3700 + (1 / 3) * 5500 - (3967 :: real) = 333"
  by (simp add: calculate_temp_def transition_a_def transition_bounds c_trunc_def)

text \<open>
  Claim C5, amended: for elevation -3 with day 5500 K and night 3700 K the fraction is
  \<open>a = (-6 - (-3)) / (-6 - 3) = 1/3\<close> and the target temperature is
  \<open>2/3 * 3700 + 1/3 * 5500 = 4300\<close> K.
\<close>

theorem calculate_temp_minus3:
  "transition_a (- 3) = (- 6 - (- 3)) / (- 6 - 3) \<and> transition_a (- 3) = 1 / 3 \<and>
   real_of_int (calculate_temp (- 3) 5500 3700) = (2 / 3) * 3700 + (1 / 3) * 5500 \<and>
   calculate_temp (- 3) 5500 3700 = 4300"
  by (simp add: calculate_temp_def transition_a_def transition_bounds c_trunc_def)

section \<open>The loop of \<^verbatim>\<open>do_continous\<close>\<close>

subsection \<open>Unfolding the model\<close>

lemmas sample_defs = sun_at_def default_opts_def env_at_def DEFAULT_DAY_TEMP_def DEFAULT_NIGHT_TEMP_def
  DEFAULT_GAMMA_def initial_state_def

lemmas eval_defs = tick_def check_disable_def check_exiting_def setup_transition_def
  ongoing_transition_def end_of_transition_def interpolate_temp_def MAX_macro_def MIN_macro_def
  calculate_temp_def transition_a_def transition_bounds c_trunc_def Let_def
  do_continous_def after_loop_def do_oneshot_def

lemma tick_cases:
  "tick se opts s env =
     (let s2 = check_exiting (sig_exiting env) (check_disable (sig_disable env) s);
          now = time_now env;
          s4 = ongoing_transition now (setup_transition opts now s2);
          s5 = snd (end_of_transition s4);
          calls = fst (end_of_transition s4);
          temp1 = interpolate_temp (adjustment_alpha s5)
                    (calculate_temp (se now (lat opts) (lon opts)) (temp_day opts) (temp_night opts))
      in if time_r env < 0 then ([Free], Fatal s2)
         else if done_flag s5 \<and> \<not> short_trans s5 then (calls, Break s5)
         else if \<not> disabled s5 \<or> short_trans s5 then
           (if set_r env < 0 then (calls @ [Set_temperature temp1, Free], Fatal s5)
            else (calls @ [Set_temperature temp1], Continue s5))
         else (calls, Continue s5))"
  by (simp add: tick_def Let_def split: prod.splits)

lemma tick_state:
  "state_of (snd (tick se opts s env)) =
     (let s2 = check_exiting (sig_exiting env) (check_disable (sig_disable env) s)
      in if time_r env < 0 then s2
         else snd (end_of_transition (ongoing_transition (time_now env)
                (setup_transition opts (time_now env) s2))))"
  by (simp add: tick_def Let_def split: prod.splits)

subsection \<open>Runs of the loop\<close>

lemma run_loop_append:
  "run_loop se opts s envs0 = (cs0, Continue s') \<Longrightarrow>
   run_loop se opts s (envs0 @ envs) =
     (cs0 @ fst (run_loop se opts s' envs), snd (run_loop se opts s' envs))"
proof (induction envs0 arbitrary: s cs0)
  case Nil
  then show ?case by simp
next
  case (Cons env envs0)
  obtain calls r where t: "tick se opts s env = (calls, r)" by (cases "tick se opts s env")
  show ?case
  proof (cases r)
    case (Continue s1)
    obtain cs1 r1 where r1: "run_loop se opts s1 envs0 = (cs1, r1)"
      by (cases "run_loop se opts s1 envs0")
    with Cons.prems t Continue have "r1 = Continue s'" and cs0: "cs0 = calls @ cs1" by simp_all
    with r1 Cons.IH [of s1 cs1] have
      "run_loop se opts s1 (envs0 @ envs) =
         (cs1 @ fst (run_loop se opts s' envs), snd (run_loop se opts s' envs))" by simp
    with t Continue cs0 show ?thesis by simp
  next
    case (Break s1)
    with Cons.prems t show ?thesis by simp
  next
    case (Fatal s1)
    with Cons.prems t show ?thesis by simp
  qed
qed

lemma run_loop_split:
  "run_loop se opts s envs = (cs, r) \<Longrightarrow> r \<noteq> Continue (state_of r) \<Longrightarrow>
   \<exists>envs0 env envs1 cs0 s0 cs1.
     envs = envs0 @ env # envs1 \<and> run_loop se opts s envs0 = (cs0, Continue s0) \<and>
     tick se opts s0 env = (cs1, r) \<and> cs = cs0 @ cs1"
proof (induction envs arbitrary: s cs)
  case Nil
  then show ?case by auto
next
  case (Cons env envs)
  obtain calls r1 where t: "tick se opts s env = (calls, r1)" by (cases "tick se opts s env")
  show ?case
  proof (cases r1)
    case (Continue s1)
    obtain cs1 where r1: "run_loop se opts s1 envs = (cs1, r)" and cs: "cs = calls @ cs1"
      using Cons.prems(1) t Continue by (auto split: prod.splits)
    from Cons.IH [OF r1 Cons.prems(2)] obtain envs0 env' envs1 cs0 s0 cs2 where
      a: "envs = envs0 @ env' # envs1" "run_loop se opts s1 envs0 = (cs0, Continue s0)"
      "tick se opts s0 env' = (cs2, r)" "cs1 = cs0 @ cs2" by blast
    have "run_loop se opts s (env # envs0) = (calls @ cs0, Continue s0)"
      using t Continue a(2) by simp
    with a cs show ?thesis
      by (metis append_Cons append_assoc)
  next
    case (Break s1)
    with Cons.prems t have "r = Break s1" "cs = calls" by simp_all
    with t Break have "env # envs = [] @ env # envs \<and> run_loop se opts s [] = ([], Continue s) \<and>
     tick se opts s env = (calls, r) \<and> cs = [] @ calls" by simp
    then show ?thesis by blast
  next
    case (Fatal s1)
    with Cons.prems t have "r = Fatal s1" "cs = calls" by simp_all
    with t Fatal have "env # envs = [] @ env # envs \<and> run_loop se opts s [] = ([], Continue s) \<and>
     tick se opts s env = (calls, r) \<and> cs = [] @ calls" by simp
    then show ?thesis by blast
  qed
qed

subsection \<open>The fade fraction stays between 0 and 1\<close>

lemma clamp_range: "0 \<le> MAX_macro 0 (MIN_macro x 1) \<and> MAX_macro 0 (MIN_macro x 1) \<le> 1"
  by (simp add: MAX_macro_def MIN_macro_def)

lemma alpha_check_disable: "alpha_ok s \<Longrightarrow> alpha_ok (check_disable d s)"
  by (simp add: alpha_ok_def check_disable_def Let_def)

lemma alpha_check_exiting: "alpha_ok s \<Longrightarrow> alpha_ok (check_exiting d s)"
  by (simp add: alpha_ok_def check_exiting_def Let_def)

lemma alpha_setup: "adjustment_alpha (setup_transition opts now s) = adjustment_alpha s"
  by (simp add: setup_transition_def)

lemma alpha_ongoing_active: "short_trans s \<Longrightarrow> alpha_ok (ongoing_transition now s)"
  using clamp_range by (simp add: alpha_ok_def ongoing_transition_def Let_def)

lemma alpha_ongoing: "alpha_ok s \<Longrightarrow> alpha_ok (ongoing_transition now s)"
  using alpha_ongoing_active [of s now] by (cases "short_trans s") (simp_all add: ongoing_transition_def)

lemma alpha_end: "adjustment_alpha (snd (end_of_transition s)) = adjustment_alpha s"
  by (simp add: end_of_transition_def)

lemma alpha_tick: "alpha_ok s \<Longrightarrow> alpha_ok (state_of (snd (tick se opts s env)))"
proof -
  assume a: "alpha_ok s"
  let ?s2 = "check_exiting (sig_exiting env) (check_disable (sig_disable env) s)"
  have s2: "alpha_ok ?s2" using a by (simp add: alpha_check_disable alpha_check_exiting)
  have "alpha_ok (setup_transition opts (time_now env) ?s2)"
    using s2 by (simp add: alpha_ok_def alpha_setup)
  then have "alpha_ok (ongoing_transition (time_now env) (setup_transition opts (time_now env) ?s2))"
    by (rule alpha_ongoing)
  then have "alpha_ok (snd (end_of_transition (ongoing_transition (time_now env)
                (setup_transition opts (time_now env) ?s2))))"
    by (simp add: alpha_ok_def alpha_end)
  with s2 show ?thesis by (simp add: tick_state Let_def)
qed

lemma alpha_run: "alpha_ok s \<Longrightarrow> alpha_ok (state_of (snd (run_loop se opts s envs)))"
proof (induction envs arbitrary: s)
  case Nil
  then show ?case by simp
next
  case (Cons env envs)
  obtain calls r where t: "tick se opts s env = (calls, r)" by (cases "tick se opts s env")
  have ok: "alpha_ok (state_of r)" using alpha_tick [OF Cons.prems, of se opts env] t by simp
  show ?case
  proof (cases r)
    case (Continue s')
    with ok Cons.IH [of s'] t show ?thesis by (auto split: prod.splits)
  next
    case (Break s')
    with ok t show ?thesis by simp
  next
    case (Fatal s')
    with ok t show ?thesis by simp
  qed
qed

text \<open>
  Claim C6: after the update of the fade fraction, \<open>adjustment_alpha\<close> lies in
  \<open>[0, 1]\<close>: the update itself clamps it, whatever the time and the end of the
  transition are, and so it lies in \<open>[0, 1]\<close> after every iteration of a run of the
  loop.
\<close>

theorem adjustment_alpha_clamped:
  "(short_trans s \<longrightarrow>
      0 \<le> adjustment_alpha (ongoing_transition now s) \<and>
      adjustment_alpha (ongoing_transition now s) \<le> 1) \<and>
   (run_loop se opts initial_state envs = (calls, r) \<longrightarrow>
      0 \<le> adjustment_alpha (state_of r) \<and> adjustment_alpha (state_of r) \<le> 1)"
proof -
  have "alpha_ok (ongoing_transition now s)" if "short_trans s"
    using that by (rule alpha_ongoing_active)
  moreover have "alpha_ok initial_state"
    by (simp add: alpha_ok_def initial_state_def)
  then have "alpha_ok (state_of (snd (run_loop se opts initial_state envs)))"
    by (rule alpha_run)
  ultimately show ?thesis
    by (auto simp add: alpha_ok_def)
qed

theorem adjustment_alpha_clamped_witness:
  "short_trans (initial_state\<lparr> short_trans := True, short_trans_end := 10 \<rparr>) \<and>
   adjustment_alpha (ongoing_transition 1000
      (initial_state\<lparr> short_trans := True, short_trans_end := 10 \<rparr>)) = 0 \<and>
   run_loop (sun_at 10) default_opts initial_state [env_at 0, env_at 1000] =
     ([Set_temperature 6500, Set_temperature 5500],
      Continue (initial_state\<lparr> short_trans_end := 10, short_trans_create := False \<rparr>)) \<and>
   adjustment_alpha (initial_state\<lparr> short_trans_end := 10, short_trans_create := False \<rparr>) = 0"
  using adjustment_alpha_clamped [of "initial_state\<lparr> short_trans := True, short_trans_end := 10 \<rparr>"
      1000 "sun_at 10" default_opts "[env_at 0, env_at 1000]"]
  by (simp add: eval_defs sample_defs)

subsection \<open>What holds between two iterations\<close>

lemma inv_initial: "inv_tick opts initial_state"
  by (simp add: inv_tick_def initial_state_def)

lemma restore_no_set:
  assumes "inv_tick opts s"
  shows "let s4 = ongoing_transition now (setup_transition opts now (check_exiting x (check_disable d s)))
         in fst (end_of_transition s4) = [] \<or> (fst (end_of_transition s4) = [Restore] \<and> disabled (snd (end_of_transition s4)) \<and> \<not> short_trans (snd (end_of_transition s4)))"
  using assms
  by (auto simp add: inv_tick_def setup_transition_def check_exiting_def check_disable_def ongoing_transition_def end_of_transition_def Let_def split: if_splits)

lemma inv_tick_preserved:
  assumes "inv_tick opts s"
  shows "inv_tick opts (snd (end_of_transition (ongoing_transition now (setup_transition opts now (check_exiting x (check_disable d s))))))"
  using assms
  by (auto simp add: inv_tick_def setup_transition_def check_exiting_def check_disable_def ongoing_transition_def end_of_transition_def Let_def split: if_splits)

lemma inv_run:
  "inv_tick opts s \<Longrightarrow> run_loop se opts s envs = (cs, Continue s') \<Longrightarrow> inv_tick opts s'"
proof (induction envs arbitrary: s cs)
  case Nil
  then show ?case by simp
next
  case (Cons env envs)
  obtain calls r where t: "tick se opts s env = (calls, r)" by (cases "tick se opts s env")
  show ?case
  proof (cases r)
    case (Continue s1)
    have "s1 = state_of (snd (tick se opts s env))" using t Continue by simp
    also have "time_r env \<ge> 0" using t Continue by (auto simp add: tick_cases Let_def split: if_splits)
    ultimately have "inv_tick opts s1"
      using inv_tick_preserved [OF Cons.prems(1)] by (simp add: tick_state Let_def)
    moreover obtain cs1 where "run_loop se opts s1 envs = (cs1, Continue s')"
      using Cons.prems(2) t Continue by (auto split: prod.splits)
    ultimately show ?thesis using Cons.IH by blast
  next
    case (Break s1)
    with Cons.prems t show ?thesis by simp
  next
    case (Fatal s1)
    with Cons.prems t show ?thesis by simp
  qed
qed

subsection \<open>Calls to \<^verbatim>\<open>set_temperature\<close>\<close>






subsection \<open>The exits through \<^verbatim>\<open>exit(EXIT_FAILURE)\<close>\<close>

lemma free_only_fatal:
  "tick se opts s env = (cs, r) \<Longrightarrow> Free \<in> set cs \<Longrightarrow> r = Fatal (state_of r)"
  by (auto simp add: tick_cases Let_def end_of_transition_def split: if_splits)

lemma no_free_continue:
  "run_loop se opts s envs = (cs, Continue s') \<Longrightarrow> Free \<notin> set cs"
proof (induction envs arbitrary: s cs)
  case Nil
  then show ?case by simp
next
  case (Cons env envs)
  obtain calls r where t: "tick se opts s env = (calls, r)" by (cases "tick se opts s env")
  show ?case
  proof (cases r)
    case (Continue s1)
    obtain cs1 where r1: "run_loop se opts s1 envs = (cs1, Continue s')" and cs: "cs = calls @ cs1"
      using Cons.prems(1) t Continue by (auto split: prod.splits)
    have "Free \<notin> set calls" using free_only_fatal [OF t] Continue by auto
    with Cons.IH [OF r1] cs show ?thesis by simp
  next
    case (Break s1)
    with Cons.prems t show ?thesis by simp
  next
    case (Fatal s1)
    with Cons.prems t show ?thesis by simp
  qed
qed

lemma fatal_tick_calls:
  assumes "inv_tick opts s" and "tick se opts s env = (cs, Fatal s')"
  shows "(time_r env < 0 \<and> cs = [Free]) \<or> (\<exists>t. set_r env < 0 \<and> cs = [Set_temperature t, Free])"
proof (cases "time_r env < 0")
  case True
  with assms(2) show ?thesis by (simp add: tick_cases Let_def)
next
  case False
  let ?s4 = "ongoing_transition (time_now env) (setup_transition opts (time_now env)
        (check_exiting (sig_exiting env) (check_disable (sig_disable env) s)))"
  from restore_no_set [OF assms(1), of "time_now env" "sig_exiting env" "sig_disable env"]
  have r: "fst (end_of_transition ?s4) = [] \<or> (fst (end_of_transition ?s4) = [Restore] \<and> disabled (snd (end_of_transition ?s4)) \<and> \<not> short_trans (snd (end_of_transition ?s4)))"
    by (simp add: Let_def)
  from assms(2) False r show ?thesis
    by (auto simp add: tick_cases Let_def split: if_splits)
qed

lemma do_oneshot_fatal:
  "do_oneshot se opts env = (cs, EXIT_FAILURE) \<Longrightarrow>
     (time_r env < 0 \<and> cs = [Free]) \<or> (\<exists>t. set_r env < 0 \<and> cs = [Set_temperature t, Free])"
  by (auto simp add: do_oneshot_def Let_def split: if_splits)

lemma do_continous_fatal:
  assumes "do_continous se opts envs = (cs, Some EXIT_FAILURE)"
  shows "\<exists>envs0 env envs1 cs0 s.
           envs = envs0 @ env # envs1 \<and>
           run_loop se opts initial_state envs0 = (cs0, Continue s) \<and> Free \<notin> set cs0 \<and>
           ((time_r env < 0 \<and> cs = cs0 @ [Free]) \<or>
            (\<exists>t. set_r env < 0 \<and> cs = cs0 @ [Set_temperature t, Free]))"
proof -
  obtain r where run: "run_loop se opts initial_state envs = (cs, r)" and "r = Fatal (state_of r)"
    using assms by (cases "run_loop se opts initial_state envs"; cases "snd (run_loop se opts initial_state envs)")
      (auto simp add: do_continous_def after_loop_def)
  then have "r \<noteq> Continue (state_of r)" by (cases r) auto
  from run_loop_split [OF run this] obtain envs0 env envs1 cs0 s0 cs1 where
    a: "envs = envs0 @ env # envs1" "run_loop se opts initial_state envs0 = (cs0, Continue s0)"
       "tick se opts s0 env = (cs1, r)" "cs = cs0 @ cs1" by blast
  have inv: "inv_tick opts s0" using inv_run [OF inv_initial a(2)] .
  have nofree: "Free \<notin> set cs0" using no_free_continue [OF a(2)] .
  from \<open>r = Fatal (state_of r)\<close> a(3) have "tick se opts s0 env = (cs1, Fatal (state_of r))" by simp
  from fatal_tick_calls [OF inv this]
  have "(time_r env < 0 \<and> cs1 = [Free]) \<or> (\<exists>t. set_r env < 0 \<and> cs1 = [Set_temperature t, Free])" .
  with a nofree show ?thesis by blast
qed

text \<open>
  Claim C1, as stated, has every fatal exit restore the saved gamma ramps before it
  frees the backend state. The code calls \<^verbatim>\<open>gamma_state_free\<close> alone: when the
  clock fails in the third iteration, when \<^verbatim>\<open>set_temperature\<close> fails there, and on
  both failures of the one-shot mode, no call to restore is made at all.
\<close>

theorem fatal_exit_without_restore:
  "do_continous (sun_at (- 10)) default_opts
     [env_at 0, env_at 20, (env_at 25)\<lparr> time_r := - 1 \<rparr>] =
     ([Set_temperature 6500, Set_temperature 3700, Free], Some EXIT_FAILURE) \<and>
   Restore \<notin> set [Set_temperature 6500, Set_temperature 3700, Free] \<and>
   do_continous (sun_at (- 10)) default_opts
     [env_at 0, env_at 20, (env_at 25)\<lparr> set_r := - 1 \<rparr>] =
     ([Set_temperature 6500, Set_temperature 3700, Set_temperature 3700, Free], Some EXIT_FAILURE) \<and>
   Restore \<notin> set [Set_temperature 6500, Set_temperature 3700, Set_temperature 3700, Free] \<and>
   do_oneshot (sun_at (- 10)) default_opts ((env_at 0)\<lparr> time_r := - 1 \<rparr>) =
     ([Free], EXIT_FAILURE) \<and>
   do_oneshot (sun_at (- 10)) default_opts ((env_at 0)\<lparr> set_r := - 1 \<rparr>) =
     ([Set_temperature 3700, Free], EXIT_FAILURE)"
  by (simp add: eval_defs sample_defs)

text \<open>
  Claim C1, amended: on every fatal exit (the clock or \<^verbatim>\<open>set_temperature\<close> failing,
  in the one-shot mode and in the loop) the program frees the backend state exactly once,
  as its last call to the backend, and makes no call to restore after the failure: the
  calls of the one-shot mode are the free alone, or the failed \<^verbatim>\<open>set_temperature\<close> and
  the free; the calls of the loop are those of the iterations before, none of them a
  free, followed by the free alone, or by the failed \<^verbatim>\<open>set_temperature\<close> and the free.
\<close>

theorem fatal_exit_frees_without_restore:
  "(do_oneshot se opts env1 = (cs1, EXIT_FAILURE) \<longrightarrow>
      (time_r env1 < 0 \<and> cs1 = [Free]) \<or>
      (\<exists>t. set_r env1 < 0 \<and> cs1 = [Set_temperature t, Free])) \<and>
   (do_continous se opts envs = (cs2, Some EXIT_FAILURE) \<longrightarrow>
      (\<exists>envs0 env envs1 cs0 s.
         envs = envs0 @ env # envs1 \<and>
         run_loop se opts initial_state envs0 = (cs0, Continue s) \<and> Free \<notin> set cs0 \<and>
         ((time_r env < 0 \<and> cs2 = cs0 @ [Free]) \<or>
          (\<exists>t. set_r env < 0 \<and> cs2 = cs0 @ [Set_temperature t, Free]))))"
  using do_oneshot_fatal do_continous_fatal by blast

theorem fatal_exit_frees_without_restore_witness:
  "do_oneshot (sun_at (- 10)) default_opts ((env_at 0)\<lparr> set_r := - 1 \<rparr>) =
     ([Set_temperature 3700, Free], EXIT_FAILURE) \<and>
   do_continous (sun_at (- 10)) default_opts
     [env_at 0, env_at 20, (env_at 25)\<lparr> set_r := - 1 \<rparr>] =
     ([Set_temperature 6500, Set_temperature 3700, Set_temperature 3700, Free], Some EXIT_FAILURE)"
  using fatal_exit_frees_without_restore [of "sun_at (- 10)" default_opts
      "(env_at 0)\<lparr> set_r := - 1 \<rparr>" "[Set_temperature 3700, Free]"
      "[env_at 0, env_at 20, (env_at 25)\<lparr> set_r := - 1 \<rparr>]"
      "[Set_temperature 6500, Set_temperature 3700, Set_temperature 3700, Free]"]
  by (simp add: eval_defs sample_defs)

subsection \<open>The second stop signal\<close>

lemma second_stop_tick:
  assumes "inv_tick opts s" and "done_flag s" and "sig_exiting env" and "\<not> sig_disable env"
    and "0 \<le> time_r env"
  shows "tick se opts s env =
           ((if short_trans_create s \<and> disabled s then [Restore] else []),
            Break (s\<lparr> short_trans := False \<rparr>))"
  using assms
  by (cases s)
     (auto simp add: tick_cases inv_tick_def check_disable_def check_exiting_def
        setup_transition_def ongoing_transition_def end_of_transition_def Let_def)

text \<open>
  Claim C7, as stated, has every stop signal that arrives while \<^verbatim>\<open>done\<close> is set
  end the loop in that iteration, with a restore before the return. When the disable
  signal is pending in the same iteration, the block that sets up a transition starts
  a new one after the stop has cleared \<^verbatim>\<open>short_trans\<close>: the loop goes on (it is
  still running after the fourth iteration, and fades for two more seconds). When the
  clock fails in that iteration, the process exits with a free and no restore.
\<close>

theorem second_stop_with_disable_goes_on:
  "run_loop (sun_at 10) default_opts initial_state
     [env_at 0, env_at 20, (env_at 21)\<lparr> sig_exiting := True \<rparr>] =
     ([Set_temperature 6500, Set_temperature 5500, Set_temperature 5500],
      Continue \<lparr> short_trans_end = 23, short_trans = True, short_trans_done = False,
        short_trans_create = False, short_trans_begin = False, short_trans_len = 2,
        adjustment_alpha = 0, done_flag = True, disabled = False \<rparr>) \<and>
   do_continous (sun_at 10) default_opts
     [env_at 0, env_at 20, (env_at 21)\<lparr> sig_exiting := True \<rparr>,
      (env_at 21.5)\<lparr> sig_exiting := True, sig_disable := True \<rparr>] =
     ([Set_temperature 6500, Set_temperature 5500, Set_temperature 5500, Set_temperature 5500],
      None) \<and>
   do_continous (sun_at 10) default_opts
     [env_at 0, env_at 20, (env_at 21)\<lparr> sig_exiting := True \<rparr>,
      (env_at 21.5)\<lparr> sig_exiting := True, sig_disable := True \<rparr>, env_at 22, env_at 24] =
     ([Set_temperature 6500, Set_temperature 5500, Set_temperature 5500, Set_temperature 5500,
       Set_temperature 5750, Restore, Restore], Some (Returned 0)) \<and>
   do_continous (sun_at 10) default_opts
     [env_at 0, env_at 20, (env_at 21)\<lparr> sig_exiting := True \<rparr>,
      (env_at 21.5)\<lparr> sig_exiting := True, time_r := - 1 \<rparr>] =
     ([Set_temperature 6500, Set_temperature 5500, Set_temperature 5500, Free],
      Some EXIT_FAILURE)"
  by (simp add: eval_defs sample_defs)

text \<open>
  Claim C7, amended: if a stop signal arrives while \<^verbatim>\<open>done\<close> is already set, no
  disable signal is pending in the same iteration and the clock can be read, then the
  ongoing short transition is aborted (\<^verbatim>\<open>short_trans\<close> is cleared, the fade fraction
  is left as it is), the loop ends in that iteration without a call to
  \<^verbatim>\<open>set_temperature\<close>, and \<^verbatim>\<open>do_continous\<close> restores the saved gamma ramps as its
  last call to the backend and returns 0.
\<close>

theorem second_stop_breaks_loop:
  assumes "run_loop se opts initial_state envs0 = (cs0, Continue s)"
    and "done_flag s" and "sig_exiting env" and "\<not> sig_disable env" and "0 \<le> time_r env"
  shows "\<exists>cs1. tick se opts s env = (cs1, Break (s\<lparr> short_trans := False \<rparr>)) \<and>
           (cs1 = [] \<or> cs1 = [Restore]) \<and>
           do_continous se opts (envs0 @ env # envs1) =
             (cs0 @ cs1 @ [Restore], Some (Returned 0))"
proof -
  let ?cs1 = "if short_trans_create s \<and> disabled s then [Restore] else []"
  have inv: "inv_tick opts s" using inv_run [OF inv_initial assms(1)] .
  have t: "tick se opts s env = (?cs1, Break (s\<lparr> short_trans := False \<rparr>))"
    using second_stop_tick [OF inv assms(2-5)] .
  then have "run_loop se opts s (env # envs1) = (?cs1, Break (s\<lparr> short_trans := False \<rparr>))"
    by simp
  with run_loop_append [OF assms(1), of "env # envs1"]
  have "run_loop se opts initial_state (envs0 @ env # envs1) =
          (cs0 @ ?cs1, Break (s\<lparr> short_trans := False \<rparr>))" by simp
  then have "do_continous se opts (envs0 @ env # envs1) =
             (cs0 @ ?cs1 @ [Restore], Some (Returned 0))"
    by (simp add: do_continous_def after_loop_def)
  with t show ?thesis by auto
qed

theorem second_stop_breaks_loop_witness:
  "run_loop (sun_at 10) default_opts initial_state
     [env_at 0, env_at 20, (env_at 21)\<lparr> sig_exiting := True \<rparr>] =
     ([Set_temperature 6500, Set_temperature 5500, Set_temperature 5500],
      Continue \<lparr> short_trans_end = 23, short_trans = True, short_trans_done = False,
        short_trans_create = False, short_trans_begin = False, short_trans_len = 2,
        adjustment_alpha = 0, done_flag = True, disabled = False \<rparr>) \<and>
   do_continous (sun_at 10) default_opts
     ([env_at 0, env_at 20, (env_at 21)\<lparr> sig_exiting := True \<rparr>] @
      (env_at 21.5)\<lparr> sig_exiting := True \<rparr> # [env_at 22]) =
     ([Set_temperature 6500, Set_temperature 5500, Set_temperature 5500, Restore],
      Some (Returned 0))"
  using second_stop_breaks_loop [of "sun_at 10" default_opts
      "[env_at 0, env_at 20, (env_at 21)\<lparr> sig_exiting := True \<rparr>]"
      "[Set_temperature 6500, Set_temperature 5500, Set_temperature 5500]"
      "\<lparr> short_trans_end = 23, short_trans = True, short_trans_done = False,
        short_trans_create = False, short_trans_begin = False, short_trans_len = 2,
        adjustment_alpha = 0, done_flag = True, disabled = False \<rparr>"
      "(env_at 21.5)\<lparr> sig_exiting := True \<rparr>" "[env_at 22]"]
  by (simp add: eval_defs sample_defs)

subsection \<open>The fade fraction of an iteration\<close>
















subsection \<open>Disabling and enabling\<close>

lemma interpolate_temp_0: "interpolate_temp 0 temp = temp"
  by (simp add: interpolate_temp_def c_trunc_of_int)

lemma disable_starts_fade:
  assumes "transition opts" and "steady s" and "disable_event env"
  shows "\<exists>t s1. tick se opts s env = ([Set_temperature t], Continue s1) \<and>
                 fading (disabled s) (time_now env + 2) s1"
  using assms
  by (cases s)
     (auto simp add: tick_cases steady_def disable_event_def fading_def check_disable_def
        check_exiting_def setup_transition_def ongoing_transition_def end_of_transition_def
        Let_def)

lemma fade_goes_on:
  assumes "fading d E s" and "quiet env" and "time_now env \<le> E"
  shows "\<exists>t s1. tick se opts s env = ([Set_temperature t], Continue s1) \<and> fading d E s1"
  using assms
  by (cases s)
     (auto simp add: tick_cases quiet_def fading_def check_disable_def
        check_exiting_def setup_transition_def ongoing_transition_def end_of_transition_def
        Let_def)

lemma fade_out_ends:
  assumes "fading False E s" and "quiet env" and "E < time_now env"
  shows "\<exists>s1. tick se opts s env = ([Restore], Continue s1) \<and> steady s1 \<and> disabled s1 \<and>
               adjustment_alpha s1 = 1"
  using assms
  by (cases s)
     (auto simp add: tick_cases quiet_def fading_def steady_def check_disable_def
        check_exiting_def setup_transition_def ongoing_transition_def end_of_transition_def
        Let_def MAX_macro_def MIN_macro_def)

lemma fade_in_ends:
  assumes "fading True E s" and "quiet env" and "E < time_now env"
  shows "\<exists>s1. tick se opts s env =
                ([Set_temperature (calculate_temp (se (time_now env) (lat opts) (lon opts))
                    (temp_day opts) (temp_night opts))], Continue s1) \<and>
              steady s1 \<and> \<not> disabled s1 \<and> adjustment_alpha s1 = 0"
  using assms
  by (cases s)
     (auto simp add: tick_cases quiet_def fading_def steady_def check_disable_def
        check_exiting_def setup_transition_def ongoing_transition_def end_of_transition_def
        Let_def MAX_macro_def MIN_macro_def interpolate_temp_0)

lemma fade_run:
  assumes "fading d E s" and "\<forall>e \<in> set mids. quiet e \<and> time_now e \<le> E"
  shows "\<exists>cs s1. run_loop se opts s mids = (cs, Continue s1) \<and> fading d E s1 \<and>
                  Restore \<notin> set cs"
  using assms
proof (induction mids arbitrary: s)
  case Nil
  then show ?case by simp
next
  case (Cons env mids)
  then have "quiet env" and "time_now env \<le> E" by simp_all
  from fade_goes_on [OF Cons.prems(1) this] obtain t s1 where
    t: "tick se opts s env = ([Set_temperature t], Continue s1)" and f: "fading d E s1"
    by blast
  from Cons.prems(2) have "\<forall>e \<in> set mids. quiet e \<and> time_now e \<le> E" by simp
  from Cons.IH [OF f this] obtain cs s2 where
    "run_loop se opts s1 mids = (cs, Continue s2)" "fading d E s2" "Restore \<notin> set cs" by blast
  with t show ?case by simp
qed

lemma event_then_fade:
  assumes "transition opts" and "steady s" and "disable_event e1"
    and "\<forall>e \<in> set mids. quiet e \<and> time_now e \<le> time_now e1 + 2"
  shows "\<exists>t1 s1 cs s1'. tick se opts s e1 = ([Set_temperature t1], Continue s1) \<and>
           fading (disabled s) (time_now e1 + 2) s1 \<and>
           run_loop se opts s (e1 # mids) = (Set_temperature t1 # cs, Continue s1') \<and>
           fading (disabled s) (time_now e1 + 2) s1' \<and> Restore \<notin> set cs"
proof -
  from disable_starts_fade [OF assms(1-3)] obtain t1 s1 where
    t: "tick se opts s e1 = ([Set_temperature t1], Continue s1)"
    and f: "fading (disabled s) (time_now e1 + 2) s1" by blast
  from fade_run [OF f assms(4)] obtain cs s1' where
    r: "run_loop se opts s1 mids = (cs, Continue s1')"
    "fading (disabled s) (time_now e1 + 2) s1'" "Restore \<notin> set cs" by blast
  from t r(1) have "run_loop se opts s (e1 # mids) = (Set_temperature t1 # cs, Continue s1')"
    by simp
  with t f r show ?thesis by blast
qed

text \<open>
  Claim C8, as stated, has every disable signal start a two-second transition. With
  transitions switched off (the option \<^verbatim>\<open>-r\<close>) the block that sets up a transition
  starts none: the iteration that finds the signal restores the saved gamma ramps at once
  and leaves no transition active.
\<close>

theorem disable_without_transitions_is_immediate:
  "run_loop (sun_at 10) (default_opts\<lparr> transition := False \<rparr>) initial_state [env_at 0] =
     ([Set_temperature 5500],
      Continue \<lparr> short_trans_end = 0, short_trans = False, short_trans_done = False,
        short_trans_create = True, short_trans_begin = True, short_trans_len = 10,
        adjustment_alpha = 0, done_flag = False, disabled = False \<rparr>) \<and>
   tick (sun_at 10) (default_opts\<lparr> transition := False \<rparr>)
     \<lparr> short_trans_end = 0, short_trans = False, short_trans_done = False,
        short_trans_create = True, short_trans_begin = True, short_trans_len = 10,
        adjustment_alpha = 0, done_flag = False, disabled = False \<rparr>
     ((env_at 1)\<lparr> sig_disable := True \<rparr>) =
     ([Restore],
      Continue \<lparr> short_trans_end = 0, short_trans = False, short_trans_done = False,
        short_trans_create = True, short_trans_begin = False, short_trans_len = 2,
        adjustment_alpha = 1, done_flag = False, disabled = True \<rparr>) \<and>
   \<not> short_trans \<lparr> short_trans_end = 0, short_trans = False, short_trans_done = False,
        short_trans_create = True, short_trans_begin = False, short_trans_len = 2,
        adjustment_alpha = 1, done_flag = False, disabled = True \<rparr>"
  by (simp add: eval_defs sample_defs)

text \<open>
  Claim C8, amended: with transitions switched on, a disable signal that arrives while the
  engine is enabled and steady starts a transition toward neutral that ends two seconds
  later; the first iteration after that end restores the saved gamma ramps (no iteration
  before it does) and leaves the engine disabled and steady. A second disable signal then
  starts a transition back that ends two seconds later, and the first iteration after that
  end applies the calculated temperature with the fade fraction at 0 and leaves the engine
  enabled and steady. The iterations in between find no signal and no failure.
\<close>

theorem disable_twice_returns_to_target:
  assumes "transition opts" and "steady s" and "\<not> disabled s"
    and "disable_event e1" and "\<forall>e \<in> set mid1. quiet e \<and> time_now e \<le> time_now e1 + 2"
    and "quiet e2" and "time_now e1 + 2 < time_now e2"
    and "disable_event e3" and "\<forall>e \<in> set mid2. quiet e \<and> time_now e \<le> time_now e3 + 2"
    and "quiet e4" and "time_now e3 + 2 < time_now e4"
  shows "\<exists>t1 s1 cs1 s2 t3 s3 cs3 s4.
           tick se opts s e1 = ([Set_temperature t1], Continue s1) \<and>
           fading False (time_now e1 + 2) s1 \<and>
           run_loop se opts s (e1 # mid1 @ [e2]) = (cs1 @ [Restore], Continue s2) \<and>
           Restore \<notin> set cs1 \<and> steady s2 \<and> disabled s2 \<and> adjustment_alpha s2 = 1 \<and>
           tick se opts s2 e3 = ([Set_temperature t3], Continue s3) \<and>
           fading True (time_now e3 + 2) s3 \<and>
           run_loop se opts s2 (e3 # mid2 @ [e4]) =
             (cs3 @ [Set_temperature (calculate_temp (se (time_now e4) (lat opts) (lon opts))
                       (temp_day opts) (temp_night opts))], Continue s4) \<and>
           steady s4 \<and> \<not> disabled s4 \<and> adjustment_alpha s4 = 0 \<and>
           run_loop se opts s (e1 # mid1 @ [e2] @ e3 # mid2 @ [e4]) =
             (cs1 @ [Restore] @ cs3 @
                [Set_temperature (calculate_temp (se (time_now e4) (lat opts) (lon opts))
                   (temp_day opts) (temp_night opts))], Continue s4)"
proof -
  let ?target = "calculate_temp (se (time_now e4) (lat opts) (lon opts))
                   (temp_day opts) (temp_night opts)"
  from event_then_fade [OF assms(1,2,4,5), of se] assms(3) obtain t1 s1 cs s1' where
    a: "tick se opts s e1 = ([Set_temperature t1], Continue s1)"
       "fading False (time_now e1 + 2) s1"
       "run_loop se opts s (e1 # mid1) = (Set_temperature t1 # cs, Continue s1')"
       "fading False (time_now e1 + 2) s1'" "Restore \<notin> set cs" by auto
  from fade_out_ends [OF a(4) assms(6,7), of se opts] obtain s2 where
    b: "tick se opts s1' e2 = ([Restore], Continue s2)" "steady s2" "disabled s2"
       "adjustment_alpha s2 = 1" by blast
  have run1: "run_loop se opts s (e1 # mid1 @ [e2]) =
                ((Set_temperature t1 # cs) @ [Restore], Continue s2)"
    using run_loop_append [OF a(3), of "[e2]"] b(1) by simp
  from event_then_fade [OF assms(1) b(2) assms(8,9), of se] b(3) obtain t3 s3 cs' s3' where
    c: "tick se opts s2 e3 = ([Set_temperature t3], Continue s3)"
       "fading True (time_now e3 + 2) s3"
       "run_loop se opts s2 (e3 # mid2) = (Set_temperature t3 # cs', Continue s3')"
       "fading True (time_now e3 + 2) s3'" by auto
  from fade_in_ends [OF c(4) assms(10,11), of se opts] obtain s4 where
    d: "tick se opts s3' e4 = ([Set_temperature ?target], Continue s4)" "steady s4"
       "\<not> disabled s4" "adjustment_alpha s4 = 0" by blast
  have run2: "run_loop se opts s2 (e3 # mid2 @ [e4]) =
                ((Set_temperature t3 # cs') @ [Set_temperature ?target], Continue s4)"
    using run_loop_append [OF c(3), of "[e4]"] d(1) by simp
  have run3: "run_loop se opts s (e1 # mid1 @ [e2] @ e3 # mid2 @ [e4]) =
                ((Set_temperature t1 # cs) @ [Restore] @ (Set_temperature t3 # cs') @
                   [Set_temperature ?target], Continue s4)"
    using run_loop_append [OF run1, of "e3 # mid2 @ [e4]"] run2 by simp
  have nr: "Restore \<notin> set (Set_temperature t1 # cs)" using a(5) by simp
  from a(1,2) run1 nr b(2-4) c(1,2) run2 d(2-4) run3 show ?thesis by blast
qed

theorem disable_twice_returns_to_target_witness:
  "steady (initial_state\<lparr> short_trans_end := 10, short_trans_create := False \<rparr>) \<and>
   disable_event ((env_at 21)\<lparr> sig_disable := True \<rparr>) \<and> quiet (env_at 22) \<and> quiet (env_at 24) \<and>
   disable_event ((env_at 30)\<lparr> sig_disable := True \<rparr>) \<and> quiet (env_at 31) \<and> quiet (env_at 33) \<and>
   run_loop (sun_at 10) default_opts
     (initial_state\<lparr> short_trans_end := 10, short_trans_create := False \<rparr>)
     ((env_at 21)\<lparr> sig_disable := True \<rparr> # [env_at 22] @ [env_at 24] @
      (env_at 30)\<lparr> sig_disable := True \<rparr> # [env_at 31] @ [env_at 33]) =
     ([Set_temperature 5500, Set_temperature 6000, Restore,
       Set_temperature 6500, Set_temperature 6000, Set_temperature 5500],
      Continue \<lparr> short_trans_end = 32, short_trans = False, short_trans_done = False,
        short_trans_create = False, short_trans_begin = True, short_trans_len = 2,
        adjustment_alpha = 0, done_flag = False, disabled = False \<rparr>) \<and>
   calculate_temp (sun_at 10 33 (lat default_opts) (lon default_opts))
     (temp_day default_opts) (temp_night default_opts) = 5500"
proof -
  let ?s = "initial_state\<lparr> short_trans_end := 10, short_trans_create := False \<rparr>"
  let ?e1 = "(env_at 21)\<lparr> sig_disable := True \<rparr>"
  let ?e3 = "(env_at 30)\<lparr> sig_disable := True \<rparr>"
  have h1: "transition default_opts" by (simp add: default_opts_def)
  have h2: "steady ?s" by (simp add: steady_def initial_state_def)
  have h3: "\<not> disabled ?s" by (simp add: initial_state_def)
  have h4: "disable_event ?e1" by (simp add: disable_event_def env_at_def)
  have h5: "\<forall>e \<in> set [env_at 22]. quiet e \<and> time_now e \<le> time_now ?e1 + 2"
    by (simp add: quiet_def env_at_def)
  have h6: "quiet (env_at 24)" by (simp add: quiet_def env_at_def)
  have h7: "time_now ?e1 + 2 < time_now (env_at 24)" by (simp add: env_at_def)
  have h8: "disable_event ?e3" by (simp add: disable_event_def env_at_def)
  have h9: "\<forall>e \<in> set [env_at 31]. quiet e \<and> time_now e \<le> time_now ?e3 + 2"
    by (simp add: quiet_def env_at_def)
  have h10: "quiet (env_at 33)" by (simp add: quiet_def env_at_def)
  have h11: "time_now ?e3 + 2 < time_now (env_at 33)" by (simp add: env_at_def)
  have q: "quiet (env_at 22)" "quiet (env_at 31)" by (simp_all add: quiet_def env_at_def)
  have t: "calculate_temp (sun_at 10 33 (lat default_opts) (lon default_opts))
     (temp_day default_opts) (temp_night default_opts) = 5500"
    by (simp add: calculate_temp_def transition_bounds sample_defs)
  from disable_twice_returns_to_target [OF h1 h2 h3 h4 h5 h6 h7 h8 h9 h10 h11, of "sun_at 10"]
  obtain cs s4 where
    run: "run_loop (sun_at 10) default_opts ?s
            (?e1 # [env_at 22] @ [env_at 24] @ ?e3 # [env_at 31] @ [env_at 33]) =
            (cs, Continue s4)" by blast
  have "run_loop (sun_at 10) default_opts ?s
            (?e1 # [env_at 22] @ [env_at 24] @ ?e3 # [env_at 31] @ [env_at 33]) =
     ([Set_temperature 5500, Set_temperature 6000, Restore,
       Set_temperature 6500, Set_temperature 6000, Set_temperature 5500],
      Continue \<lparr> short_trans_end = 32, short_trans = False, short_trans_done = False,
        short_trans_create = False, short_trans_begin = True, short_trans_len = 2,
        adjustment_alpha = 0, done_flag = False, disabled = False \<rparr>)"
    by (simp add: eval_defs sample_defs)
  with run h2 h4 h6 h8 h10 q t show ?thesis by blast
qed

section \<open>The gamma argument\<close>

lemma strchr_append:
  "c \<notin> set xs \<Longrightarrow> strchr (xs @ c # ys) c = Some (length xs)"
  by (induction xs) auto

lemma three_updates:
  "length xs = 3 \<Longrightarrow> xs[0 := a, 1 := b, 2 := c] = [a, b, c]"
  by (cases xs; cases "tl xs"; cases "tl (tl xs)") auto

text \<open>
  Claim C9: for an argument \<open>r:g:b\<close> (no colon in \<open>r\<close> or in \<open>g\<close>), the first
  component goes to slot 0 of the gamma array, the second to slot 1 and the third to
  slot 2.
\<close>

theorem gamma_components_in_order:
  assumes "CHR '':'' \<notin> set r" and "CHR '':'' \<notin> set g" and "length (gamma opts) = 3"
  shows "parse_options_gamma atof opts (r @ '':'' @ g @ '':'' @ b) =
           Inr (opts\<lparr> gamma := [atof r, atof g, atof b] \<rparr>)"
proof -
  have 1: "strchr (r @ '':'' @ g @ '':'' @ b) CHR '':'' = Some (length r)"
    using strchr_append [OF assms(1), of "g @ '':'' @ b"] by simp
  have 2: "strchr (g @ '':'' @ b) CHR '':'' = Some (length g)"
    using strchr_append [OF assms(2), of b] by simp
  show ?thesis
    using 1 2 three_updates [OF assms(3), of "atof r" "atof g" "atof b"]
    by (simp add: parse_options_gamma_def Let_def)
qed

theorem gamma_components_in_order_witness:
  "CHR '':'' \<notin> set ''1'' \<and> CHR '':'' \<notin> set ''22'' \<and> length (gamma default_opts) = 3 \<and>
   parse_options_gamma (\<lambda>s. real (length s)) default_opts ''1:22:333'' =
     Inr (default_opts\<lparr> gamma := [1, 2, 3] \<rparr>)"
  using gamma_components_in_order [of "''1''" "''22''" default_opts "\<lambda>s. real (length s)" "''333''"]
  by (simp add: default_opts_def)

end
